theory Spec2Isabelle
  imports Complex_Main
begin

section \<open>Python values, errors and the module namespace\<close>

text \<open>
  The embedded module is \<^verbatim>\<open>oauth2cli/aio/oauth2.py\<close>: the asynchronous OAuth2 client with
  its token pipeline (\<^verbatim>\<open>_obtain_token\<close>), the device-flow initiator and the device-flow
  poller. Every \<^verbatim>\<open>await\<close> is a sequential call: one logical thread of control runs a
  client call from its start to its end.

  The values that travel through the dictionaries of the module (the descriptor
  \<^verbatim>\<open>flow\<close>, the request body \<^verbatim>\<open>data\<close>, the token result) are Python values. Floats
  are idealised as reals: \<^verbatim>\<open>time.time()\<close> and the sums and comparisons made with it are
  exact. Lists and nested dictionaries are never inspected by the module and are one
  opaque constructor.
\<close>

datatype pyval =
    PNone
  | PBool bool
  | PInt int
  | PFloat real
  | PStr string
  | PContainer

type_synonym pydict = "string \<rightharpoonup> pyval"

datatype error =
    ValueError string
  | NameError string
  | KeyError string
  | TypeError
  | AttributeError string
  | HTTPError int
  | TransportError string

text \<open>
  The names bound in the module's namespace: its four imports and its three top-level
  definitions. A name used by a function body that is neither here nor a Python builtin
  raises \<^verbatim>\<open>NameError\<close> when the line that uses it runs.
\<close>

definition module_globals :: "string list" where
  "module_globals =
     [''json'', ''time'', ''Mapping'', ''AbstractBaseClient'',
      ''_get_content'', ''BaseClient'', ''Client'']"

definition lookup_global :: "string \<Rightarrow> error + unit" where
  "lookup_global name =
     (if name \<in> set module_globals then Inr () else Inl (NameError name))"

text \<open>\<^verbatim>\<open>d.get(key, default)\<close>.\<close>

definition dict_get :: "pydict \<Rightarrow> string \<Rightarrow> pyval \<Rightarrow> pyval" where
  "dict_get d k dflt = (case d k of None \<Rightarrow> dflt | Some v \<Rightarrow> v)"

text \<open>
  The numeric value of a Python number (\<^verbatim>\<open>bool\<close> is a subclass of \<^verbatim>\<open>int\<close>); every
  other value has none, and arithmetic with an integer literal on it raises
  \<^verbatim>\<open>TypeError\<close>.
\<close>

fun num_of :: "pyval \<Rightarrow> real option" where
  "num_of (PBool b) = Some (if b then 1 else 0)"
| "num_of (PInt n) = Some (real_of_int n)"
| "num_of (PFloat r) = Some r"
| "num_of _ = None"

text \<open>\<^verbatim>\<open>v + k\<close> for an integer literal \<^verbatim>\<open>k\<close>: an integer stays an integer.\<close>

fun py_add_int :: "pyval \<Rightarrow> int \<Rightarrow> error + pyval" where
  "py_add_int (PBool b) k = Inr (PInt ((if b then 1 else 0) + k))"
| "py_add_int (PInt n) k = Inr (PInt (n + k))"
| "py_add_int (PFloat r) k = Inr (PFloat (r + real_of_int k))"
| "py_add_int _ k = Inl TypeError"

text \<open>
  The number of rounds of \<^verbatim>\<open>for i in range(v)\<close>: \<^verbatim>\<open>range\<close> takes integers only, and a
  bound of zero or less gives no round at all.
\<close>

fun py_range :: "pyval \<Rightarrow> error + nat" where
  "py_range (PBool b) = Inr (if b then 1 else 0)"
| "py_range (PInt n) = Inr (if n \<le> 0 then 0 else nat n)"
| "py_range _ = Inl TypeError"

section \<open>The transport, the client and the host\<close>

text \<open>
  A transport response. \<^verbatim>\<open>status_code\<close> is the attribute of requests and httpx,
  \<^verbatim>\<open>status\<close> the one of aiohttp; \<open>None\<close> is an attribute the response does not have (or
  that is \<^verbatim>\<open>None\<close>). \<^verbatim>\<open>text\<close> is a plain string (httpx) or a coroutine function
  (aiohttp). \<^verbatim>\<open>raise_for_status\<close> is a method of the transport's response object, not of
  this module: the field says whether calling it on this response raises.
\<close>

datatype text_attr = Plain string | Callable string

record http_resp =
  status_code :: "int option"
  status :: "int option"
  text_of :: text_attr
  raise_for_status :: bool

text \<open>\<^verbatim>\<open>_get_content\<close>: awaits \<^verbatim>\<open>text()\<close> when it is callable, reads it otherwise.\<close>

fun get_content :: "http_resp \<Rightarrow> string" where
  "get_content resp = (case text_of resp of Callable body \<Rightarrow> body | Plain body \<Rightarrow> body)"

text \<open>
  \<^verbatim>\<open>getattr(resp, "status_code", None) or resp.status\<close>: a missing, \<^verbatim>\<open>None\<close> or zero
  \<^verbatim>\<open>status_code\<close> falls through to \<^verbatim>\<open>resp.status\<close>, whose absence raises.
\<close>

definition resp_status :: "http_resp \<Rightarrow> error + int" where
  "resp_status resp =
     (case status_code resp of
        Some c \<Rightarrow>
          (if c \<noteq> 0 then Inr c
           else (case status resp of None \<Rightarrow> Inl (AttributeError ''status'') | Some t \<Rightarrow> Inr t))
      | None \<Rightarrow> (case status resp of None \<Rightarrow> Inl (AttributeError ''status'') | Some t \<Rightarrow> Inr t))"

text \<open>
  The client instance. \<^verbatim>\<open>_prepare_token_request\<close>, \<^verbatim>\<open>_parse_token_resposne\<close> and
  \<^verbatim>\<open>_stringify\<close> are methods of the parent class \<^verbatim>\<open>AbstractBaseClient\<close>, which is
  outside this module: they are parameters of the client. The parser gives the token
  result as a dictionary, or \<open>None\<close> when it raises its parse failure.
\<close>

record client =
  configuration :: "string \<rightharpoonup> string"
  client_id :: string
  prepare_token_request :: "string \<Rightarrow> pydict \<Rightarrow> pydict"
  parse_token_response :: "string \<Rightarrow> pydict option"
  stringify :: "string list \<Rightarrow> string"

text \<open>
  Modelled from the spec: the class constants \<^verbatim>\<open>DEVICE_FLOW\<close> and
  \<^verbatim>\<open>DEVICE_FLOW_RETRIABLE_ERRORS\<close> of the parent class \<^verbatim>\<open>AbstractBaseClient\<close>. The
  spec names the grant type \<^verbatim>\<open>device_code\<close>, the body field \<^verbatim>\<open>device_code\<close> and the
  retriable set \<^verbatim>\<open>{authorization_pending, slow_down}\<close>.
\<close>

definition DEVICE_FLOW_GRANT_TYPE :: string where
  "DEVICE_FLOW_GRANT_TYPE = ''device_code''"

definition DEVICE_FLOW_DEVICE_CODE :: string where
  "DEVICE_FLOW_DEVICE_CODE = ''device_code''"

definition DEVICE_FLOW_RETRIABLE_ERRORS :: "string list" where
  "DEVICE_FLOW_RETRIABLE_ERRORS = [''authorization_pending'', ''slow_down'']"

text \<open>
  What runs outside the module, over a state \<open>'e\<close> of the outside world: the clock
  \<^verbatim>\<open>time.time()\<close>, the transport's \<^verbatim>\<open>post\<close> (it answers with a response or raises, and
  the world moves on), and \<^verbatim>\<open>json.loads\<close> (\<open>None\<close> when the text is not JSON).
\<close>

datatype json_doc = JObject pydict | JOther

record 'e host =
  time_time :: "'e \<Rightarrow> real"
  session_post :: "string \<Rightarrow> pydict \<Rightarrow> 'e \<Rightarrow> (error + http_resp) \<times> 'e"
  json_loads :: "string \<Rightarrow> json_doc option"

text \<open>
  The state threaded through a call: the outside world and a log of what the call did,
  newest event first. The log is an observer: no function of the module reads it.
\<close>

datatype event =
    EvPost string
  | EvResult pydict
  | EvAttempt
  | EvCheck
  | EvSleep

record 'e state =
  env :: 'e
  log :: "event list"

definition record_event :: "event \<Rightarrow> 'e state \<Rightarrow> 'e state" where
  "record_event ev s = s\<lparr>log := ev # log s\<rparr>"

section \<open>The token pipeline\<close>

text \<open>
  \<^verbatim>\<open>_obtain_token\<close>. The endpoint is looked up first (a missing key raises), the request
  is prepared and posted, the status is read, a status of 500 or more calls the
  response's \<^verbatim>\<open>raise_for_status()\<close>, and whatever is left is parsed.
\<close>

definition priv_obtain_token ::
  "client \<Rightarrow> 'e host \<Rightarrow> string \<Rightarrow> pydict \<Rightarrow> 'e state \<Rightarrow> (error + pydict) \<times> 'e state" where
  "priv_obtain_token c H grant_type data s =
     (case configuration c ''token_endpoint'' of
        None \<Rightarrow> (Inl (KeyError ''token_endpoint''), s)
      | Some url \<Rightarrow>
          (case session_post H url (prepare_token_request c grant_type data) (env s) of
             (Inl e, w) \<Rightarrow> (Inl e, record_event (EvPost url) (s\<lparr>env := w\<rparr>))
           | (Inr resp, w) \<Rightarrow>
               (let s1 = record_event (EvPost url) (s\<lparr>env := w\<rparr>) in
                case resp_status resp of
                  Inl e \<Rightarrow> (Inl e, s1)
                | Inr st \<Rightarrow>
                    if st \<ge> 500 \<and> raise_for_status resp then (Inl (HTTPError st), s1)
                    else (case parse_token_response c (get_content resp) of
                            None \<Rightarrow> (Inl (ValueError ''token response''), s1)
                          | Some result \<Rightarrow> (Inr result, record_event (EvResult result) s1)))))"

text \<open>
  \<^verbatim>\<open>obtain_token_by_refresh_token\<close>. The \<^verbatim>\<open>assert\<close> runs first (Python's default mode
  keeps assertions) and evaluates the name \<^verbatim>\<open>string_types\<close>.
\<close>

definition obtain_token_by_refresh_token ::
  "client \<Rightarrow> 'e host \<Rightarrow> string \<Rightarrow> pyval \<Rightarrow> pydict \<Rightarrow> 'e state \<Rightarrow> (error + pydict) \<times> 'e state" where
  "obtain_token_by_refresh_token c H refresh_token scope data s =
     (case lookup_global ''string_types'' of
        Inl e \<Rightarrow> (Inl e, s)
      | Inr _ \<Rightarrow>
          priv_obtain_token c H ''refresh_token''
            (data(''refresh_token'' \<mapsto> PStr refresh_token, ''scope'' \<mapsto> scope)) s)"

section \<open>The device authorization initiator\<close>

text \<open>
  Python's \<^verbatim>\<open>int(v)\<close>. A string is stripped of surrounding whitespace, may carry one sign,
  and is then decimal digits, with single underscores allowed between digits; anything
  else raises \<^verbatim>\<open>ValueError\<close>. A float is truncated towards zero. Characters are ASCII.
\<close>

definition is_py_space :: "char \<Rightarrow> bool" where
  "is_py_space c =
     (c \<in> set [CHR 0x09, CHR 0x0A, CHR 0x0B, CHR 0x0C, CHR 0x0D,
               CHR 0x1C, CHR 0x1D, CHR 0x1E, CHR 0x1F, CHR 0x20])"

definition py_strip :: "string \<Rightarrow> string" where
  "py_strip s = rev (dropWhile is_py_space (rev (dropWhile is_py_space s)))"

definition is_digit :: "char \<Rightarrow> bool" where
  "is_digit c = (48 \<le> (of_char c :: nat) \<and> (of_char c :: nat) \<le> 57)"

definition digit_val :: "char \<Rightarrow> int" where
  "digit_val c = int (of_char c :: nat) - 48"

fun well_grouped :: "bool \<Rightarrow> string \<Rightarrow> bool" where
  "well_grouped after_digit [] = after_digit"
| "well_grouped after_digit (c # cs) =
     (if is_digit c then well_grouped True cs
      else if c = CHR ''_'' \<and> after_digit then well_grouped False cs
      else False)"

definition py_int_digits :: "string \<Rightarrow> error + int" where
  "py_int_digits ds =
     (if well_grouped False ds
      then Inr (foldl (\<lambda>a c. 10 * a + digit_val c) 0 (filter is_digit ds))
      else Inl (ValueError ''invalid literal for int()''))"

definition py_int_str :: "string \<Rightarrow> error + int" where
  "py_int_str s =
     (case py_strip s of
        [] \<Rightarrow> Inl (ValueError ''invalid literal for int()'')
      | c # cs \<Rightarrow>
          if c = CHR ''+'' then py_int_digits cs
          else if c = CHR ''-'' then map_sum id uminus (py_int_digits cs)
          else py_int_digits (c # cs))"

fun py_int :: "pyval \<Rightarrow> error + int" where
  "py_int (PBool b) = Inr (if b then 1 else 0)"
| "py_int (PInt n) = Inr n"
| "py_int (PFloat r) = Inr (if 0 \<le> r then \<lfloor>r\<rfloor> else \<lceil>r\<rceil>)"
| "py_int (PStr s) = py_int_str s"
| "py_int _ = Inl TypeError"

text \<open>\<^verbatim>\<open>not self.configuration.get(key)\<close>: the key is absent or its value is empty.\<close>

definition config_missing :: "client \<Rightarrow> string \<Rightarrow> bool" where
  "config_missing c k = (case configuration c k of None \<Rightarrow> True | Some url \<Rightarrow> url = [])"

text \<open>
  \<^verbatim>\<open>initiate_device_flow\<close>. The endpoint check comes first; the request carries the client
  identifier and the stringified scope; the answer is parsed as JSON and only an object
  has \<^verbatim>\<open>get\<close>; \<^verbatim>\<open>interval\<close> and \<^verbatim>\<open>expires_in\<close> go through \<^verbatim>\<open>int\<close>; the clock is
  read after the answer has arrived.
\<close>

definition initiate_device_flow ::
  "client \<Rightarrow> 'e host \<Rightarrow> string list \<Rightarrow> pydict \<Rightarrow> 'e state \<Rightarrow> (error + pydict) \<times> 'e state" where
  "initiate_device_flow c H scope data s =
     (if config_missing c ''device_authorization_endpoint''
      then (Inl (ValueError ''You need to provide device authorization endpoint''), s)
      else
        (let url = the (configuration c ''device_authorization_endpoint'');
             data1 = data(''client_id'' \<mapsto> PStr (client_id c),
                          ''scope'' \<mapsto> PStr (stringify c scope))
         in case session_post H url data1 (env s) of
              (Inl e, w) \<Rightarrow> (Inl e, record_event (EvPost url) (s\<lparr>env := w\<rparr>))
            | (Inr resp, w) \<Rightarrow>
                (let s1 = record_event (EvPost url) (s\<lparr>env := w\<rparr>) in
                 case json_loads H (get_content resp) of
                   None \<Rightarrow> (Inl (ValueError ''json''), s1)
                 | Some JOther \<Rightarrow> (Inl (AttributeError ''get''), s1)
                 | Some (JObject flow) \<Rightarrow>
                     (case py_int (dict_get flow ''interval'' (PInt 5)) of
                        Inl e \<Rightarrow> (Inl e, s1)
                      | Inr i \<Rightarrow>
                          (case py_int (dict_get flow ''expires_in'' (PInt 1800)) of
                             Inl e \<Rightarrow> (Inl e, s1)
                           | Inr x \<Rightarrow>
                               (Inr (flow(''interval'' \<mapsto> PInt i,
                                          ''expires_in'' \<mapsto> PInt x,
                                          ''expires_at'' \<mapsto>
                                             PFloat (time_time H (env s1) + real_of_int x))),
                                s1))))))"

section \<open>The device flow poller\<close>

text \<open>
  The test of line 95: \<^verbatim>\<open>flow.get("latest_attempt_at", 0) + flow.get("interval", 5) - skew > now\<close>
  with \<^verbatim>\<open>skew = 1\<close>. Both operands must be numbers: every other pair of values raises
  \<^verbatim>\<open>TypeError\<close>, in the sum or in the subtraction of the integer that follows.
\<close>

definition attempted_too_soon :: "pydict \<Rightarrow> real \<Rightarrow> error + bool" where
  "attempted_too_soon flow now =
     (case num_of (dict_get flow ''latest_attempt_at'' (PInt 0)) of
        None \<Rightarrow> Inl TypeError
      | Some latest \<Rightarrow>
          (case num_of (dict_get flow ''interval'' (PInt 5)) of
             None \<Rightarrow> Inl TypeError
           | Some i \<Rightarrow> Inr (latest + i - 1 > now)))"

text \<open>\<^verbatim>\<open>result.get("error") == "slow_down"\<close>.\<close>

definition is_slow_down :: "pydict \<Rightarrow> bool" where
  "is_slow_down result = (result ''error'' = Some (PStr ''slow_down''))"

text \<open>\<^verbatim>\<open>result.get("error") in self.DEVICE_FLOW_RETRIABLE_ERRORS\<close>.\<close>

definition retriable :: "pydict \<Rightarrow> bool" where
  "retriable result =
     (case result ''error'' of
        Some (PStr e) \<Rightarrow> e \<in> set DEVICE_FLOW_RETRIABLE_ERRORS
      | _ \<Rightarrow> False)"

text \<open>
  \<^verbatim>\<open>_obtain_token_by_device_flow\<close>: one poll attempt. It returns what it returns or
  raises, the descriptor as the attempt left it, and the state. The premature branch
  calls \<^verbatim>\<open>warnings.warn\<close>, so it evaluates the name \<^verbatim>\<open>warnings\<close> first.
\<close>

definition priv_obtain_token_by_device_flow ::
  "client \<Rightarrow> 'e host \<Rightarrow> pydict \<Rightarrow> pydict \<Rightarrow> 'e state
     \<Rightarrow> (error + pydict) \<times> pydict \<times> 'e state" where
  "priv_obtain_token_by_device_flow c H data flow s0 =
     (let s = record_event EvAttempt s0;
          now = time_time H (env s)
      in case attempted_too_soon flow now of
           Inl e \<Rightarrow> (Inl e, flow, s)
         | Inr soon \<Rightarrow>
             (case (if soon then lookup_global ''warnings'' else Inr ()) of
                Inl e \<Rightarrow> (Inl e, flow, s)
              | Inr _ \<Rightarrow>
                  (case flow ''device_code'' of
                     None \<Rightarrow> (Inl (KeyError ''device_code''), flow, s)
                   | Some code \<Rightarrow>
                       (case priv_obtain_token c H DEVICE_FLOW_GRANT_TYPE
                               (data(''client_id'' \<mapsto> PStr (client_id c),
                                     DEVICE_FLOW_DEVICE_CODE \<mapsto> code)) s of
                          (Inl e, s1) \<Rightarrow> (Inl e, flow, s1)
                        | (Inr result, s1) \<Rightarrow>
                            (if is_slow_down result
                             then (case py_add_int (dict_get flow ''interval'' (PInt 5)) 5 of
                                     Inl e \<Rightarrow> (Inl e, flow, s1)
                                   | Inr i \<Rightarrow>
                                       (Inr result,
                                        flow(''interval'' \<mapsto> i,
                                             ''latest_attempt_at'' \<mapsto> PFloat now),
                                        s1))
                             else (Inr result,
                                   flow(''latest_attempt_at'' \<mapsto> PFloat now), s1))))))"

text \<open>
  The caller's exit condition reads the descriptor and the outside world; it may raise.
  The default one is \<^verbatim>\<open>lambda flow: flow.get("expires_at", 0) < time.time()\<close>.
\<close>

type_synonym 'e exit_condition = "pydict \<Rightarrow> 'e \<Rightarrow> error + bool"

definition default_exit_condition :: "'e host \<Rightarrow> 'e exit_condition" where
  "default_exit_condition H flow w =
     (case num_of (dict_get flow ''expires_at'' (PInt 0)) of
        None \<Rightarrow> Inl TypeError
      | Some x \<Rightarrow> Inr (x < time_time H w))"

text \<open>
  The wait phase, \<^verbatim>\<open>for i in range(n)\<close> of lines 150 to 153, for the \<open>n\<close> rounds that are
  left: the exit condition is evaluated, and only when it is false the sleeper is called
  with one second. \<open>Inr True\<close>: the exit condition held and the loop returns;
  \<open>Inr False\<close>: every round was slept through.
\<close>

fun wait_interval ::
  "nat \<Rightarrow> 'e exit_condition \<Rightarrow> (real \<Rightarrow> 'e \<Rightarrow> 'e) \<Rightarrow> pydict \<Rightarrow> 'e state
     \<Rightarrow> (error + bool) \<times> 'e state" where
  "wait_interval 0 exit_condition sleeper flow s = (Inr False, s)"
| "wait_interval (Suc n) exit_condition sleeper flow s =
     (case exit_condition flow (env s) of
        Inl e \<Rightarrow> (Inl e, record_event EvCheck s)
      | Inr True \<Rightarrow> (Inr True, record_event EvCheck s)
      | Inr False \<Rightarrow>
          wait_interval n exit_condition sleeper flow
            (record_event EvSleep ((record_event EvCheck s)\<lparr>env := sleeper 1 (env s)\<rparr>)))"

text \<open>
  The \<^verbatim>\<open>while True\<close> loop of \<^verbatim>\<open>obtain_token_by_device_flow\<close>. It may run forever, so its
  value is an option: \<open>None\<close> is a call that never returns, \<open>Some\<close> a call that returned
  or raised.
\<close>

partial_function (option) poll_loop ::
  "client \<Rightarrow> 'e host \<Rightarrow> 'e exit_condition \<Rightarrow> (real \<Rightarrow> 'e \<Rightarrow> 'e) \<Rightarrow> pydict \<Rightarrow> pydict \<Rightarrow> 'e state
     \<Rightarrow> ((error + pydict) \<times> pydict \<times> 'e state) option" where
  "poll_loop c H exit_condition sleeper data flow s =
     (case priv_obtain_token_by_device_flow c H data flow s of
        (Inl e, flow1, s1) \<Rightarrow> Some (Inl e, flow1, s1)
      | (Inr result, flow1, s1) \<Rightarrow>
          if \<not> retriable result then Some (Inr result, flow1, s1)
          else (case py_range (dict_get flow1 ''interval'' (PInt 5)) of
                  Inl e \<Rightarrow> Some (Inl e, flow1, s1)
                | Inr n \<Rightarrow>
                    (case wait_interval n exit_condition sleeper flow1 s1 of
                       (Inl e, s2) \<Rightarrow> Some (Inl e, flow1, s2)
                     | (Inr exited, s2) \<Rightarrow>
                         if exited then Some (Inr result, flow1, s2)
                         else poll_loop c H exit_condition sleeper data flow1 s2)))"

text \<open>\<^verbatim>\<open>obtain_token_by_device_flow\<close>: the sleeper is checked before the loop starts.\<close>

definition obtain_token_by_device_flow ::
  "client \<Rightarrow> 'e host \<Rightarrow> 'e exit_condition \<Rightarrow> (real \<Rightarrow> 'e \<Rightarrow> 'e) option \<Rightarrow> pydict \<Rightarrow> pydict
     \<Rightarrow> 'e state \<Rightarrow> ((error + pydict) \<times> pydict \<times> 'e state) option" where
  "obtain_token_by_device_flow c H exit_condition sleeper data flow s =
     (case sleeper of
        None \<Rightarrow> Some (Inl (ValueError ''You need to provide something like asyncio.sleep''), flow, s)
      | Some sl \<Rightarrow> poll_loop c H exit_condition sl data flow s)"

section \<open>A concrete client, transport and world\<close>

text \<open>
  A small world for evaluating the functions: a clock and the number of requests posted
  so far. Its transport answers the \<open>k\<close>-th request with the \<open>k\<close>-th response of a
  script; its sleeper moves the clock; its token parser and its JSON reader know a few
  documents by name.
\<close>

record demo_world =
  clock :: real
  posted :: nat

definition demo_resp :: "int \<Rightarrow> string \<Rightarrow> http_resp" where
  "demo_resp st body =
     \<lparr>status_code = Some st, status = None, text_of = Plain body,
      raise_for_status = (400 \<le> st)\<rparr>"

definition demo_parse :: "string \<Rightarrow> pydict option" where
  "demo_parse body =
     (if body = ''pending'' then Some [''error'' \<mapsto> PStr ''authorization_pending'']
      else if body = ''slow'' then Some [''error'' \<mapsto> PStr ''slow_down'']
      else if body = ''denied'' then Some [''error'' \<mapsto> PStr ''access_denied'']
      else if body = ''token'' then Some [''access_token'' \<mapsto> PStr ''abc'']
      else None)"

definition demo_json :: "string \<Rightarrow> json_doc option" where
  "demo_json body =
     (if body = ''bare'' then Some (JObject [''device_code'' \<mapsto> PStr ''dc''])
      else if body = ''text interval'' then
        Some (JObject [''device_code'' \<mapsto> PStr ''dc'', ''interval'' \<mapsto> PStr ''10''])
      else if body = ''numbers'' then
        Some (JObject [''device_code'' \<mapsto> PStr ''dc'', ''interval'' \<mapsto> PInt 7,
                       ''expires_in'' \<mapsto> PInt 900])
      else if body = ''list'' then Some JOther
      else None)"

definition demo_client :: client where
  "demo_client =
     \<lparr>configuration = [''token_endpoint'' \<mapsto> ''https://idp/token'',
                       ''device_authorization_endpoint'' \<mapsto> ''https://idp/device''],
      client_id = ''app'',
      prepare_token_request = (\<lambda>grant_type data. data(''grant_type'' \<mapsto> PStr grant_type)),
      parse_token_response = demo_parse,
      stringify = (\<lambda>scope. foldr (\<lambda>x acc. if acc = [] then x else x @ '' '' @ acc) scope [])\<rparr>"

definition demo_host :: "(nat \<Rightarrow> http_resp) \<Rightarrow> demo_world host" where
  "demo_host script =
     \<lparr>time_time = clock,
      session_post = (\<lambda>url body w. (Inr (script (posted w)), w\<lparr>posted := Suc (posted w)\<rparr>)),
      json_loads = demo_json\<rparr>"

definition demo_sleep :: "real \<Rightarrow> demo_world \<Rightarrow> demo_world" where
  "demo_sleep d w = w\<lparr>clock := clock w + d\<rparr>"

definition demo_start :: "real \<Rightarrow> demo_world state" where
  "demo_start t = \<lparr>env = \<lparr>clock = t, posted = 0\<rparr>, log = []\<rparr>"

text \<open>Reading one field of a returned dictionary; \<open>None\<close> when the call raised.\<close>

definition flow_field :: "string \<Rightarrow> (error + pydict) \<Rightarrow> pyval option" where
  "flow_field k out = (case out of Inl e \<Rightarrow> None | Inr flow \<Rightarrow> flow k)"

section \<open>Observing a call\<close>

text \<open>
  The world after \<open>k\<close> calls of \<^verbatim>\<open>sleeper(1)\<close>, and what \<open>k\<close> full rounds of the wait phase
  add to the log (newest first: in each round the check comes before the sleep).
\<close>

definition slept :: "(real \<Rightarrow> 'e \<Rightarrow> 'e) \<Rightarrow> nat \<Rightarrow> 'e \<Rightarrow> 'e" where
  "slept sleeper k w = ((sleeper 1) ^^ k) w"

definition waited :: "nat \<Rightarrow> event list" where
  "waited k = concat (replicate k [EvSleep, EvCheck])"

fun is_attempt :: "event \<Rightarrow> bool" where
  "is_attempt EvAttempt = True"
| "is_attempt _ = False"

fun is_post :: "event \<Rightarrow> bool" where
  "is_post (EvPost url) = True"
| "is_post _ = False"



fun is_slow_result :: "event \<Rightarrow> bool" where
  "is_slow_result (EvResult result) = is_slow_down result"
| "is_slow_result _ = False"

definition attempts :: "'e state \<Rightarrow> nat" where
  "attempts s = length (filter is_attempt (log s))"

definition posts :: "'e state \<Rightarrow> nat" where
  "posts s = length (filter is_post (log s))"



definition slow_downs :: "'e state \<Rightarrow> nat" where
  "slow_downs s = length (filter is_slow_result (log s))"

text \<open>\<^verbatim>\<open>flow.get("interval", 5)\<close> as a number; \<open>None\<close> when it is not one.\<close>

definition interval_of :: "pydict \<Rightarrow> real option" where
  "interval_of flow = num_of (dict_get flow ''interval'' (PInt 5))"

section \<open>Results\<close>

text \<open>
  C9 (as the code behaves). For every string refresh token the call stops at its first
  line: the assertion names \<^verbatim>\<open>string_types\<close>, which the module never binds, so the call
  raises \<^verbatim>\<open>NameError\<close> and leaves the state as it was: no request is prepared or sent.
\<close>

theorem refresh_token_name_error:
  "obtain_token_by_refresh_token c H refresh_token scope data s
     = (Inl (NameError ''string_types''), s)"
  by (simp add: obtain_token_by_refresh_token_def lookup_global_def module_globals_def)



text \<open>
  C6. Without a device-authorization endpoint in the configuration (absent or empty),
  \<^verbatim>\<open>initiate_device_flow\<close> raises its \<^verbatim>\<open>ValueError\<close> and the state is the one it was
  called in: nothing was posted. Without a sleeper, \<^verbatim>\<open>obtain_token_by_device_flow\<close>
  raises its \<^verbatim>\<open>ValueError\<close> with the descriptor and the state untouched: no poll attempt
  was made and nothing was posted.
\<close>

theorem configuration_errors_before_network:
  "(config_missing c ''device_authorization_endpoint'' \<longrightarrow>
      initiate_device_flow c H scope data s
        = (Inl (ValueError ''You need to provide device authorization endpoint''), s))
   \<and> obtain_token_by_device_flow c H exit_condition None data flow s
        = Some (Inl (ValueError ''You need to provide something like asyncio.sleep''), flow, s)"
  by (simp add: initiate_device_flow_def obtain_token_by_device_flow_def)

theorem configuration_errors_before_network_witness:
  "initiate_device_flow (demo_client\<lparr>configuration := [''token_endpoint'' \<mapsto> ''https://idp/token'']\<rparr>)
      (demo_host (\<lambda>k. demo_resp 200 ''bare'')) [''openid''] Map.empty (demo_start 0)
     = (Inl (ValueError ''You need to provide device authorization endpoint''), demo_start 0)
   \<and> obtain_token_by_device_flow demo_client (demo_host (\<lambda>k. demo_resp 200 ''token''))
        (\<lambda>flow w. Inr True) None Map.empty [''device_code'' \<mapsto> PStr ''dc''] (demo_start 0)
     = Some (Inl (ValueError ''You need to provide something like asyncio.sleep''),
             [''device_code'' \<mapsto> PStr ''dc''], demo_start 0)"
proof -
  have m: "config_missing (demo_client\<lparr>configuration := [''token_endpoint'' \<mapsto> ''https://idp/token'']\<rparr>)
             ''device_authorization_endpoint''"
    by (simp add: config_missing_def)
  from configuration_errors_before_network
         [where c = "demo_client\<lparr>configuration := [''token_endpoint'' \<mapsto> ''https://idp/token'']\<rparr>"
            and H = "demo_host (\<lambda>k. demo_resp 200 ''bare'')" and scope = "[''openid'']"
            and data = Map.empty and s = "demo_start 0"] m
       configuration_errors_before_network
         [where c = demo_client and H = "demo_host (\<lambda>k. demo_resp 200 ''token'')"
            and exit_condition = "\<lambda>flow w. Inr True" and data = Map.empty
            and flow = "[''device_code'' \<mapsto> PStr ''dc'']" and s = "demo_start 0"]
  show ?thesis by simp
qed

text \<open>
  C4 (as the code behaves). On every descriptor for which
  \<^verbatim>\<open>latest_attempt_at + interval - 1\<close> exceeds the current time, a single poll attempt
  reaches \<^verbatim>\<open>warnings.warn\<close>; the module never imports \<^verbatim>\<open>warnings\<close>, so the attempt
  raises \<^verbatim>\<open>NameError\<close> there. The descriptor is unchanged and no token request is sent:
  the log holds the start of the attempt and nothing else.
\<close>

theorem premature_attempt_name_error:
  assumes "attempted_too_soon flow (time_time H (env s)) = Inr True"
  shows "priv_obtain_token_by_device_flow c H data flow s
           = (Inl (NameError ''warnings''), flow, record_event EvAttempt s)"
  using assms
  by (simp add: priv_obtain_token_by_device_flow_def Let_def record_event_def
                lookup_global_def module_globals_def)

theorem premature_attempt_name_error_witness:
  "priv_obtain_token_by_device_flow demo_client (demo_host (\<lambda>k. demo_resp 200 ''token'')) Map.empty
      [''device_code'' \<mapsto> PStr ''dc'', ''interval'' \<mapsto> PInt 5, ''latest_attempt_at'' \<mapsto> PFloat 1000]
      (demo_start 1001)
     = (Inl (NameError ''warnings''),
        [''device_code'' \<mapsto> PStr ''dc'', ''interval'' \<mapsto> PInt 5, ''latest_attempt_at'' \<mapsto> PFloat 1000],
        \<lparr>env = \<lparr>clock = 1001, posted = 0\<rparr>, log = [EvAttempt]\<rparr>)"
proof -
  have h: "attempted_too_soon
             [''device_code'' \<mapsto> PStr ''dc'', ''interval'' \<mapsto> PInt 5, ''latest_attempt_at'' \<mapsto> PFloat 1000]
             (time_time (demo_host (\<lambda>k. demo_resp 200 ''token'')) (env (demo_start 1001))) = Inr True"
    by (simp add: attempted_too_soon_def dict_get_def demo_host_def demo_start_def)
  from premature_attempt_name_error [OF h, of demo_client Map.empty]
  show ?thesis by (simp add: record_event_def demo_start_def)
qed

text \<open>
  C5, the claim as written fails. A provider answers
  \<^verbatim>\<open>{"device_code": "dc", "interval": "10"}\<close>: the interval is text. The descriptor's
  interval is then 10, the integer the text denotes, not the default 5.
\<close>

theorem initiate_text_interval_counterexample:
  "flow_field ''interval''
     (fst (initiate_device_flow demo_client (demo_host (\<lambda>k. demo_resp 200 ''text interval''))
             [] Map.empty (demo_start 1000))) = Some (PInt 10)
   \<and> flow_field ''interval''
     (fst (initiate_device_flow demo_client (demo_host (\<lambda>k. demo_resp 200 ''text interval''))
             [] Map.empty (demo_start 1000))) \<noteq> Some (PInt 5)"
  by (simp add: initiate_device_flow_def config_missing_def demo_client_def demo_host_def
        demo_start_def demo_resp_def demo_json_def record_event_def dict_get_def flow_field_def
        py_int_str_def py_strip_def is_py_space_def py_int_digits_def is_digit_def digit_val_def
        Let_def)

text \<open>
  C5, amended. Whenever \<^verbatim>\<open>initiate_device_flow\<close> returns a descriptor, the provider's
  answer was a JSON object and: the interval is 5 when the provider omits it; when the
  provider gives it as text it is the integer that the text denotes (\<^verbatim>\<open>int\<close> of the
  text); \<^verbatim>\<open>expires_in\<close> is 1800 when the provider omits it; and \<^verbatim>\<open>expires_at\<close> is the
  clock read by this call, after the answer arrived, plus \<^verbatim>\<open>expires_in\<close>, whatever the
  provider sent under that key.
\<close>

theorem initiate_normalises_descriptor:
  assumes "initiate_device_flow c H scope data s = (Inr flow, s1)"
  shows "\<exists>resp doc x.
           session_post H (the (configuration c ''device_authorization_endpoint''))
               (data(''client_id'' \<mapsto> PStr (client_id c), ''scope'' \<mapsto> PStr (stringify c scope)))
               (env s) = (Inr resp, env s1)
         \<and> json_loads H (get_content resp) = Some (JObject doc)
         \<and> (doc ''interval'' = None \<longrightarrow> flow ''interval'' = Some (PInt 5))
         \<and> (\<forall>t. doc ''interval'' = Some (PStr t) \<longrightarrow>
                (\<exists>i. py_int_str t = Inr i \<and> flow ''interval'' = Some (PInt i)))
         \<and> (doc ''expires_in'' = None \<longrightarrow> flow ''expires_in'' = Some (PInt 1800))
         \<and> flow ''expires_in'' = Some (PInt x)
         \<and> flow ''expires_at'' = Some (PFloat (time_time H (env s1) + real_of_int x))"
  using assms
  by (auto simp: initiate_device_flow_def Let_def record_event_def dict_get_def
           split: if_splits prod.splits sum.splits option.splits json_doc.splits)

theorem initiate_normalises_descriptor_witness:
  "flow_field ''interval''
     (fst (initiate_device_flow demo_client (demo_host (\<lambda>k. demo_resp 200 ''bare''))
             [''openid''] Map.empty (demo_start 500))) = Some (PInt 5)
   \<and> flow_field ''expires_in''
     (fst (initiate_device_flow demo_client (demo_host (\<lambda>k. demo_resp 200 ''bare''))
             [''openid''] Map.empty (demo_start 500))) = Some (PInt 1800)
   \<and> flow_field ''expires_at''
     (fst (initiate_device_flow demo_client (demo_host (\<lambda>k. demo_resp 200 ''bare''))
             [''openid''] Map.empty (demo_start 500))) = Some (PFloat 2300)"
proof -
  let ?call = "initiate_device_flow demo_client (demo_host (\<lambda>k. demo_resp 200 ''bare''))
                 [''openid''] Map.empty (demo_start 500)"
  have ret: "\<exists>flow. ?call = (Inr flow, \<lparr>env = \<lparr>clock = 500, posted = 1\<rparr>,
                                         log = [EvPost ''https://idp/device'']\<rparr>)"
    by (simp add: initiate_device_flow_def config_missing_def demo_client_def demo_host_def
          demo_start_def demo_resp_def demo_json_def record_event_def dict_get_def Let_def)
  then obtain flow where h: "?call = (Inr flow, \<lparr>env = \<lparr>clock = 500, posted = 1\<rparr>,
                                         log = [EvPost ''https://idp/device'']\<rparr>)" ..
  from initiate_normalises_descriptor [OF h]
  obtain resp doc x where
    post: "session_post (demo_host (\<lambda>k. demo_resp 200 ''bare''))
             (the (configuration demo_client ''device_authorization_endpoint''))
             (Map.empty(''client_id'' \<mapsto> PStr (client_id demo_client),
                        ''scope'' \<mapsto> PStr (stringify demo_client [''openid''])))
             (env (demo_start 500)) = (Inr resp, \<lparr>clock = 500, posted = 1\<rparr>)"
    and doc: "json_loads (demo_host (\<lambda>k. demo_resp 200 ''bare'')) (get_content resp) = Some (JObject doc)"
    and i: "doc ''interval'' = None \<longrightarrow> flow ''interval'' = Some (PInt 5)"
    and e: "doc ''expires_in'' = None \<longrightarrow> flow ''expires_in'' = Some (PInt 1800)"
    and x: "flow ''expires_in'' = Some (PInt x)"
    and a: "flow ''expires_at'' = Some (PFloat (time_time (demo_host (\<lambda>k. demo_resp 200 ''bare''))
                                            \<lparr>clock = 500, posted = 1\<rparr> + real_of_int x))"
    by auto
  from post have "resp = demo_resp 200 ''bare''"
    by (simp add: demo_host_def demo_start_def)
  with doc have d: "doc = [''device_code'' \<mapsto> PStr ''dc'']"
    by (simp add: demo_host_def demo_json_def demo_resp_def)
  from d i have 1: "flow ''interval'' = Some (PInt 5)" by simp
  from d e have 2: "flow ''expires_in'' = Some (PInt 1800)" by simp
  from 2 x have "x = 1800" by simp
  with a have 3: "flow ''expires_at'' = Some (PFloat 2300)"
    by (simp add: demo_host_def)
  from 1 2 3 h show ?thesis by (simp add: flow_field_def)
qed

text \<open>Helper facts about the wait phase: its rounds, the world they leave and their log.\<close>

lemma waited_Suc: "waited (Suc k) = EvSleep # EvCheck # waited k"
  by (simp add: waited_def)

lemma waited_Suc_end: "waited (Suc k) = waited k @ [EvSleep, EvCheck]"
  by (induction k) (simp_all add: waited_def)

lemma slept_Suc: "slept sl (Suc k) w = slept sl k (sl 1 w)"
  by (simp add: slept_def funpow_swap1)

lemma wait_interval_all:
  "(\<And>i. i < n \<Longrightarrow> xc flow (slept sl i (env s)) = Inr False) \<Longrightarrow>
   wait_interval n xc sl flow s
     = (Inr False, s\<lparr>env := slept sl n (env s), log := waited n @ log s\<rparr>)"
proof (induction n arbitrary: s)
  case 0
  then show ?case by (simp add: slept_def waited_def)
next
  case (Suc n)
  let ?s = "record_event EvSleep ((record_event EvCheck s)\<lparr>env := sl 1 (env s)\<rparr>)"
  from Suc.prems [of 0] have now: "xc flow (env s) = Inr False"
    by (simp add: slept_def)
  have later: "\<And>i. i < n \<Longrightarrow> xc flow (slept sl i (env ?s)) = Inr False"
    using Suc.prems [of "Suc _"] by (simp add: slept_Suc record_event_def)
  from Suc.IH [of ?s, OF later] now show ?case
    by (simp add: slept_Suc waited_Suc_end record_event_def)
qed

lemma wait_interval_exit:
  "k < n \<Longrightarrow> (\<And>i. i < k \<Longrightarrow> xc flow (slept sl i (env s)) = Inr False) \<Longrightarrow>
   xc flow (slept sl k (env s)) = Inr True \<Longrightarrow>
   wait_interval n xc sl flow s
     = (Inr True, s\<lparr>env := slept sl k (env s), log := EvCheck # waited k @ log s\<rparr>)"
proof (induction n arbitrary: s k)
  case 0
  then show ?case by simp
next
  case (Suc n)
  show ?case
  proof (cases k)
    case 0
    with Suc.prems show ?thesis
      by (simp add: slept_def waited_def record_event_def)
  next
    case (Suc j)
    let ?s = "record_event EvSleep ((record_event EvCheck s)\<lparr>env := sl 1 (env s)\<rparr>)"
    from Suc.prems(2) [of 0] Suc have now: "xc flow (env s) = Inr False"
      by (simp add: slept_def)
    have before: "\<And>i. i < j \<Longrightarrow> xc flow (slept sl i (env ?s)) = Inr False"
      using Suc.prems(2) [of "Suc _"] Suc by (simp add: slept_Suc record_event_def)
    have at: "xc flow (slept sl j (env ?s)) = Inr True"
      using Suc.prems(3) Suc by (simp add: slept_Suc record_event_def)
    from Suc.prems(1) Suc have "j < n" by simp
    from Suc.IH [OF this before at] now Suc show ?thesis
      by (simp add: slept_Suc waited_Suc_end record_event_def)
  qed
qed

text \<open>Helper facts about one attempt: its log, its frame and its effect on the interval.\<close>

lemma py_add_int_num:
  "num_of v = Some i \<Longrightarrow> \<exists>v'. py_add_int v k = Inr v' \<and> num_of v' = Some (i + real_of_int k)"
  by (cases v) auto

lemma pipeline_result_log:
  "priv_obtain_token c H g d s = (Inr result, s1) \<Longrightarrow>
   \<exists>url. log s1 = EvResult result # EvPost url # log s"
  by (auto simp: priv_obtain_token_def Let_def record_event_def
           split: option.splits prod.splits sum.splits if_splits)

lemma pipeline_error_log:
  "priv_obtain_token c H g d s = (Inl e, s1) \<Longrightarrow>
   log s1 = log s \<or> (\<exists>url. log s1 = EvPost url # log s)"
  by (auto simp: priv_obtain_token_def Let_def record_event_def
           split: option.splits prod.splits sum.splits if_splits)

lemma attempt_result_log:
  assumes "priv_obtain_token_by_device_flow c H data flow s = (Inr result, flow1, s1)"
  shows "\<exists>url. log s1 = EvResult result # EvPost url # EvAttempt # log s"
  using assms
  by (auto simp: priv_obtain_token_by_device_flow_def Let_def record_event_def
           dest!: pipeline_result_log
           split: option.splits prod.splits sum.splits if_splits)

lemma attempt_frame:
  assumes "priv_obtain_token_by_device_flow c H data flow s = (out, flow1, s1)"
    and "k \<noteq> ''interval''" and "k \<noteq> ''latest_attempt_at''"
  shows "flow1 k = flow k"
  using assms
  by (auto simp: priv_obtain_token_by_device_flow_def Let_def
           split: option.splits prod.splits sum.splits if_splits)

lemma attempt_interval_field:
  assumes "priv_obtain_token_by_device_flow c H data flow s = (out, flow1, s1)"
  shows "(case out of
            Inl e \<Rightarrow> flow1 = flow
          | Inr result \<Rightarrow>
              if is_slow_down result
              then (\<exists>v. py_add_int (dict_get flow ''interval'' (PInt 5)) 5 = Inr v
                        \<and> flow1 ''interval'' = Some v)
              else flow1 ''interval'' = flow ''interval'')"
  using assms
  by (auto simp: priv_obtain_token_by_device_flow_def Let_def
           split: option.splits prod.splits sum.splits if_splits)

lemma attempt_interval:
  assumes "priv_obtain_token_by_device_flow c H data flow s = (out, flow1, s1)"
  shows "\<exists>N. slow_downs s1 = slow_downs s + N
           \<and> interval_of flow1 = map_option (\<lambda>i. i + 5 * real N) (interval_of flow)"
proof (cases "attempted_too_soon flow (time_time H (env s))")
  case (Inl e)
  with assms have "flow1 = flow" "log s1 = EvAttempt # log s"
    by (auto simp: priv_obtain_token_by_device_flow_def Let_def record_event_def)
  then have "slow_downs s1 = slow_downs s + 0
           \<and> interval_of flow1 = map_option (\<lambda>i. i + 5 * real (0::nat)) (interval_of flow)"
    by (simp add: slow_downs_def option.map_ident)
  then show ?thesis by blast
next
  case (Inr soon)
  then obtain i where i: "interval_of flow = Some i"
    by (auto simp: attempted_too_soon_def interval_of_def split: option.splits)
  from py_add_int_num [of "dict_get flow ''interval'' (PInt 5)" i 5] i
  obtain v where v: "py_add_int (dict_get flow ''interval'' (PInt 5)) 5 = Inr v"
    and nv: "num_of v = Some (i + 5)"
    by (auto simp: interval_of_def)
  show ?thesis
  proof (cases out)
    case (Inl e)
    with assms Inr v have same: "flow1 = flow"
      and lg: "log s1 = EvAttempt # log s \<or> (\<exists>url. log s1 = EvPost url # EvAttempt # log s)"
      by (auto simp: priv_obtain_token_by_device_flow_def Let_def record_event_def
               dest!: pipeline_error_log
               split: option.splits prod.splits sum.splits if_splits)
    from lg have "slow_downs s1 = slow_downs s + 0"
      by (auto simp: slow_downs_def)
    with same have "slow_downs s1 = slow_downs s + 0
           \<and> interval_of flow1 = map_option (\<lambda>i. i + 5 * real (0::nat)) (interval_of flow)"
      by (simp add: option.map_ident)
    then show ?thesis by blast
  next
    case out: (Inr result)
    from assms out attempt_result_log
    obtain url where lg: "log s1 = EvResult result # EvPost url # EvAttempt # log s"
      by blast
    show ?thesis
    proof (cases "is_slow_down result")
      case True
      with assms out v have "flow1 ''interval'' = Some v"
        by (auto simp: priv_obtain_token_by_device_flow_def Let_def
                 split: option.splits prod.splits sum.splits if_splits)
      with nv i have "interval_of flow1 = map_option (\<lambda>i. i + 5 * real (1::nat)) (interval_of flow)"
        by (simp add: interval_of_def dict_get_def)
      moreover from lg True have "slow_downs s1 = slow_downs s + 1"
        by (simp add: slow_downs_def)
      ultimately show ?thesis by blast
    next
      case False
      with assms out have "flow1 ''interval'' = flow ''interval''"
        by (auto simp: priv_obtain_token_by_device_flow_def Let_def
                 split: option.splits prod.splits sum.splits if_splits)
      then have "interval_of flow1 = map_option (\<lambda>i. i + 5 * real (0::nat)) (interval_of flow)"
        by (simp add: interval_of_def dict_get_def option.map_ident)
      moreover from lg False have "slow_downs s1 = slow_downs s + 0"
        by (simp add: slow_downs_def)
      ultimately show ?thesis by blast
    qed
  qed
qed

lemma wait_interval_log:
  "wait_interval n xc sl flow s = (r, s2) \<Longrightarrow>
   attempts s2 = attempts s \<and> posts s2 = posts s \<and> slow_downs s2 = slow_downs s"
proof (induction n arbitrary: s)
  case 0
  then show ?case by simp
next
  case (Suc n)
  show ?case
  proof (cases "xc flow (env s)")
    case (Inl e)
    with Suc.prems show ?thesis
      by (auto simp: record_event_def attempts_def posts_def slow_downs_def)
  next
    case (Inr b)
    show ?thesis
    proof (cases b)
      case True
      with Inr Suc.prems show ?thesis
        by (auto simp: record_event_def attempts_def posts_def slow_downs_def)
    next
      case False
      with Inr Suc.prems Suc.IH [of "record_event EvSleep ((record_event EvCheck s)\<lparr>env := sl 1 (env s)\<rparr>)"]
      show ?thesis
        by (simp add: record_event_def attempts_def posts_def slow_downs_def)
    qed
  qed
qed

text \<open>
  Induction over the unfolding of the loop, for calls that end (by returning or by
  raising): one case for each way an iteration can go.
\<close>

lemma poll_loop_induct [consumes 1, case_names attempt_raises terminal range_raises
    check_raises exited again]:
  assumes ends: "poll_loop c H xc sl data flow s = Some y"
    and attempt_raises: "\<And>flow s e flow1 s1.
        priv_obtain_token_by_device_flow c H data flow s = (Inl e, flow1, s1)
        \<Longrightarrow> P flow s (Inl e, flow1, s1)"
    and terminal: "\<And>flow s result flow1 s1.
        priv_obtain_token_by_device_flow c H data flow s = (Inr result, flow1, s1)
        \<Longrightarrow> \<not> retriable result \<Longrightarrow> P flow s (Inr result, flow1, s1)"
    and range_raises: "\<And>flow s result flow1 s1 e.
        priv_obtain_token_by_device_flow c H data flow s = (Inr result, flow1, s1)
        \<Longrightarrow> retriable result
        \<Longrightarrow> py_range (dict_get flow1 ''interval'' (PInt 5)) = Inl e
        \<Longrightarrow> P flow s (Inl e, flow1, s1)"
    and check_raises: "\<And>flow s result flow1 s1 n e s2.
        priv_obtain_token_by_device_flow c H data flow s = (Inr result, flow1, s1)
        \<Longrightarrow> retriable result
        \<Longrightarrow> py_range (dict_get flow1 ''interval'' (PInt 5)) = Inr n
        \<Longrightarrow> wait_interval n xc sl flow1 s1 = (Inl e, s2)
        \<Longrightarrow> P flow s (Inl e, flow1, s2)"
    and exited: "\<And>flow s result flow1 s1 n s2.
        priv_obtain_token_by_device_flow c H data flow s = (Inr result, flow1, s1)
        \<Longrightarrow> retriable result
        \<Longrightarrow> py_range (dict_get flow1 ''interval'' (PInt 5)) = Inr n
        \<Longrightarrow> wait_interval n xc sl flow1 s1 = (Inr True, s2)
        \<Longrightarrow> P flow s (Inr result, flow1, s2)"
    and again: "\<And>flow s result flow1 s1 n s2 y.
        priv_obtain_token_by_device_flow c H data flow s = (Inr result, flow1, s1)
        \<Longrightarrow> retriable result
        \<Longrightarrow> py_range (dict_get flow1 ''interval'' (PInt 5)) = Inr n
        \<Longrightarrow> wait_interval n xc sl flow1 s1 = (Inr False, s2)
        \<Longrightarrow> P flow1 s2 y
        \<Longrightarrow> P flow s y"
  shows "P flow s y"
proof -
  have "c = c \<and> H = H \<and> xc = xc \<and> sl = sl \<and> data = data \<longrightarrow> P flow s y"
  proof (rule poll_loop.raw_induct
           [where P = "\<lambda>c' H' xc' sl' data' flow s y.
                         c' = c \<and> H' = H \<and> xc' = xc \<and> sl' = sl \<and> data' = data \<longrightarrow> P flow s y",
            OF _ ends], goal_cases)
    case (1 loop c' H' xc' sl' data' flow s y)
    show ?case
    proof
      assume eq: "c' = c \<and> H' = H \<and> xc' = xc \<and> sl' = sl \<and> data' = data"
      note IH = "1"(1) [of c H xc sl data, simplified]
      from eq have eqs: "c' = c" "H' = H" "xc' = xc" "sl' = sl" "data' = data"
        by simp_all
      note step = "1"(2) [unfolded eqs]
      obtain out flow1 s1 where
        att: "priv_obtain_token_by_device_flow c H data flow s = (out, flow1, s1)"
        by (cases "priv_obtain_token_by_device_flow c H data flow s") auto
      show "P flow s y"
      proof (cases out)
        case (Inl e)
        with step att have "y = (Inl e, flow1, s1)" by simp
        with attempt_raises att Inl show ?thesis by simp
      next
        case (Inr result)
        note res = att [unfolded Inr]
        show ?thesis
        proof (cases "retriable result")
          case False
          with step res have "y = (Inr result, flow1, s1)" by simp
          with terminal [OF res False] show ?thesis by simp
        next
          case True
          show ?thesis
          proof (cases "py_range (dict_get flow1 ''interval'' (PInt 5))")
            case (Inl e)
            with step res True have "y = (Inl e, flow1, s1)" by simp
            with range_raises [OF res True Inl] show ?thesis by simp
          next
            case n: (Inr n)
            obtain r s2 where w: "wait_interval n xc sl flow1 s1 = (r, s2)"
              by (cases "wait_interval n xc sl flow1 s1") auto
            show ?thesis
            proof (cases r)
              case (Inl e)
              with step res True n w have "y = (Inl e, flow1, s2)" by simp
              with check_raises [OF res True n w [unfolded Inl]] show ?thesis by simp
            next
              case (Inr b)
              show ?thesis
              proof (cases b)
                case True
                with w Inr have w': "wait_interval n xc sl flow1 s1 = (Inr True, s2)"
                  by simp
                with step res \<open>retriable result\<close> n have "y = (Inr result, flow1, s2)"
                  by simp
                with exited [OF res \<open>retriable result\<close> n w']
                show ?thesis by simp
              next
                case False
                with w Inr have w': "wait_interval n xc sl flow1 s1 = (Inr False, s2)"
                  by simp
                with step res \<open>retriable result\<close> n
                have "loop c H xc sl data flow1 s2 = Some y" by simp
                from IH [OF this] have "P flow1 s2 y" .
                from again [OF res \<open>retriable result\<close> n w' this]
                show ?thesis .
              qed
            qed
          qed
        qed
      qed
    qed
  qed
  then show ?thesis by simp
qed

text \<open>Helper facts about every call of the loop that ends.\<close>

lemma poll_loop_frame:
  assumes "poll_loop c H xc sl data flow s = Some y"
    and "k \<noteq> ''interval''" and "k \<noteq> ''latest_attempt_at''"
  shows "fst (snd y) k = flow k"
  using assms(1)
proof (induction rule: poll_loop_induct)
  case (again flow s result flow1 s1 n s2 y)
  with attempt_frame [OF again(1) assms(2,3)] show ?case by simp
qed (use attempt_frame [OF _ assms(2,3)] in auto)

lemma poll_loop_interval:
  assumes "poll_loop c H xc sl data flow s = Some y"
  shows "\<exists>N. slow_downs (snd (snd y)) = slow_downs s + N
           \<and> interval_of (fst (snd y)) = map_option (\<lambda>i. i + 5 * real N) (interval_of flow)"
  using assms
proof (induction rule: poll_loop_induct)
  case (attempt_raises flow s e flow1 s1)
  from attempt_interval [OF this] show ?case by simp
next
  case (terminal flow s result flow1 s1)
  from attempt_interval [OF this(1)] show ?case by simp
next
  case (range_raises flow s result flow1 s1 e)
  from attempt_interval [OF this(1)] show ?case by simp
next
  case (check_raises flow s result flow1 s1 n e s2)
  from attempt_interval [OF this(1)] wait_interval_log [OF this(4)] show ?case by simp
next
  case (exited flow s result flow1 s1 n s2)
  from attempt_interval [OF this(1)] wait_interval_log [OF this(4)] show ?case by simp
next
  case (again flow s result flow1 s1 n s2 y)
  from attempt_interval [OF again(1)] obtain N where
    N: "slow_downs s1 = slow_downs s + N"
       "interval_of flow1 = map_option (\<lambda>i. i + 5 * real N) (interval_of flow)"
    by blast
  from again(5) obtain M where
    M: "slow_downs (snd (snd y)) = slow_downs s2 + M"
       "interval_of (fst (snd y)) = map_option (\<lambda>i. i + 5 * real M) (interval_of flow1)"
    by blast
  from wait_interval_log [OF again(4)] have "slow_downs s2 = slow_downs s1" by simp
  with M N have "slow_downs (snd (snd y)) = slow_downs s + (N + M)"
    and "interval_of (fst (snd y)) = map_option (\<lambda>i. i + 5 * real (N + M)) (interval_of flow)"
    by (auto simp: option.map_comp o_def algebra_simps)
  then show ?case by blast
qed

lemma attempt_counts:
  assumes "priv_obtain_token_by_device_flow c H data flow s = (out, flow1, s1)"
  shows "attempts s1 = Suc (attempts s)"
proof (cases out)
  case (Inl e)
  with assms have "log s1 = EvAttempt # log s \<or> (\<exists>url. log s1 = EvPost url # EvAttempt # log s)
      \<or> (\<exists>r url. log s1 = EvResult r # EvPost url # EvAttempt # log s)"
    by (auto simp: priv_obtain_token_by_device_flow_def Let_def record_event_def
             dest!: pipeline_error_log pipeline_result_log
             split: option.splits prod.splits sum.splits if_splits)
  then show ?thesis by (auto simp: attempts_def)
next
  case (Inr result)
  with assms attempt_result_log obtain url where
    "log s1 = EvResult result # EvPost url # EvAttempt # log s" by blast
  then show ?thesis by (simp add: attempts_def)
qed

lemma poll_loop_attempts:
  assumes "poll_loop c H xc sl data flow s = Some y"
  shows "Suc (attempts s) \<le> attempts (snd (snd y))"
  using assms
proof (induction rule: poll_loop_induct)
  case (again flow s result flow1 s1 n s2 y)
  with attempt_counts [OF again(1)] wait_interval_log [OF again(4)] show ?case by simp
next
  case (check_raises flow s result flow1 s1 n e s2)
  with attempt_counts [OF this(1)] wait_interval_log [OF this(4)] show ?case by simp
next
  case (exited flow s result flow1 s1 n s2)
  with attempt_counts [OF this(1)] wait_interval_log [OF this(4)] show ?case by simp
qed (simp_all add: attempt_counts)

text \<open>One iteration of the loop, from what its attempt gave.\<close>

lemma poll_step_raises:
  "priv_obtain_token_by_device_flow c H data flow s = (Inl e, flow1, s1) \<Longrightarrow>
   poll_loop c H xc sl data flow s = Some (Inl e, flow1, s1)"
  by (subst poll_loop.simps) simp

lemma poll_step_terminal:
  "priv_obtain_token_by_device_flow c H data flow s = (Inr result, flow1, s1) \<Longrightarrow>
   \<not> retriable result \<Longrightarrow>
   poll_loop c H xc sl data flow s = Some (Inr result, flow1, s1)"
  by (subst poll_loop.simps) simp

lemma poll_step_exit:
  assumes "priv_obtain_token_by_device_flow c H data flow s = (Inr result, flow1, s1)"
    and "retriable result"
    and "py_range (dict_get flow1 ''interval'' (PInt 5)) = Inr n"
    and "k < n"
    and "\<And>i. i < k \<Longrightarrow> xc flow1 (slept sl i (env s1)) = Inr False"
    and "xc flow1 (slept sl k (env s1)) = Inr True"
  shows "poll_loop c H xc sl data flow s
           = Some (Inr result, flow1,
                   s1\<lparr>env := slept sl k (env s1), log := EvCheck # waited k @ log s1\<rparr>)"
  using assms(1-3) wait_interval_exit [of k n xc flow1 sl s1, OF assms(4) assms(5) assms(6)]
  by (subst poll_loop.simps) simp

lemma poll_step_again:
  assumes "priv_obtain_token_by_device_flow c H data flow s = (Inr result, flow1, s1)"
    and "retriable result"
    and "py_range (dict_get flow1 ''interval'' (PInt 5)) = Inr n"
    and "\<And>i. i < n \<Longrightarrow> xc flow1 (slept sl i (env s1)) = Inr False"
  shows "poll_loop c H xc sl data flow s
           = poll_loop c H xc sl data flow1
               (s1\<lparr>env := slept sl n (env s1), log := waited n @ log s1\<rparr>)"
  using assms(1-3) wait_interval_all [of n xc flow1 sl s1, OF assms(4)]
  by (subst poll_loop.simps) simp

text \<open>
  C1. Take one iteration of the polling loop whose poll attempt gave a result. The
  iteration made one attempt. If the result's error is not in the retriable set, the
  loop returns that result at once, in the state the attempt left. Otherwise it goes
  through the rounds of the interval, each one a check of the exit condition followed
  by one call of the sleeper with one second: when the exit condition first holds at
  the check of round \<open>k\<close>, the loop returns the last result after \<open>k\<close> sleeps and
  \<open>k + 1\<close> checks, and makes no further attempt; when it holds at no round, the loop
  goes on to its next iteration after \<open>n\<close> sleeps and \<open>n\<close> checks.
\<close>

theorem poll_iteration:
  assumes "priv_obtain_token_by_device_flow c H data flow s = (Inr result, flow1, s1)"
  shows "attempts s1 = Suc (attempts s)
    \<and> (\<not> retriable result \<longrightarrow>
          poll_loop c H xc sl data flow s = Some (Inr result, flow1, s1))
    \<and> (retriable result \<longrightarrow>
          (\<forall>n k. py_range (dict_get flow1 ''interval'' (PInt 5)) = Inr n \<longrightarrow> k < n \<longrightarrow>
              (\<forall>i<k. xc flow1 (slept sl i (env s1)) = Inr False) \<longrightarrow>
              xc flow1 (slept sl k (env s1)) = Inr True \<longrightarrow>
              poll_loop c H xc sl data flow s
                = Some (Inr result, flow1,
                        s1\<lparr>env := slept sl k (env s1), log := EvCheck # waited k @ log s1\<rparr>)))
    \<and> (retriable result \<longrightarrow>
          (\<forall>n. py_range (dict_get flow1 ''interval'' (PInt 5)) = Inr n \<longrightarrow>
              (\<forall>i<n. xc flow1 (slept sl i (env s1)) = Inr False) \<longrightarrow>
              poll_loop c H xc sl data flow s
                = poll_loop c H xc sl data flow1
                    (s1\<lparr>env := slept sl n (env s1), log := waited n @ log s1\<rparr>)))"
proof (intro conjI impI allI)
  show "attempts s1 = Suc (attempts s)"
    using attempt_counts [OF assms] .
next
  assume "\<not> retriable result"
  with assms show "poll_loop c H xc sl data flow s = Some (Inr result, flow1, s1)"
    by (rule poll_step_terminal)
next
  fix n k
  assume "retriable result" "py_range (dict_get flow1 ''interval'' (PInt 5)) = Inr n" "k < n"
    "\<forall>i<k. xc flow1 (slept sl i (env s1)) = Inr False"
    "xc flow1 (slept sl k (env s1)) = Inr True"
  then show "poll_loop c H xc sl data flow s
                = Some (Inr result, flow1,
                        s1\<lparr>env := slept sl k (env s1), log := EvCheck # waited k @ log s1\<rparr>)"
    using poll_step_exit [OF assms] by blast
next
  fix n
  assume "retriable result" "py_range (dict_get flow1 ''interval'' (PInt 5)) = Inr n"
    "\<forall>i<n. xc flow1 (slept sl i (env s1)) = Inr False"
  then show "poll_loop c H xc sl data flow s
                = poll_loop c H xc sl data flow1
                    (s1\<lparr>env := slept sl n (env s1), log := waited n @ log s1\<rparr>)"
    using poll_step_again [OF assms] by blast
qed

text \<open>The definitions that evaluate a call in the concrete world.\<close>

lemmas demo_defs =
  priv_obtain_token_by_device_flow_def priv_obtain_token_def attempted_too_soon_def
  resp_status_def record_event_def dict_get_def lookup_global_def module_globals_def
  is_slow_down_def retriable_def DEVICE_FLOW_GRANT_TYPE_def DEVICE_FLOW_DEVICE_CODE_def
  DEVICE_FLOW_RETRIABLE_ERRORS_def demo_client_def demo_host_def demo_resp_def demo_parse_def
  demo_start_def demo_sleep_def Let_def

theorem poll_iteration_witness:
  "poll_loop demo_client (demo_host (\<lambda>k. demo_resp 400 ''pending''))
      (\<lambda>flow w. Inr (1001 \<le> clock w)) demo_sleep Map.empty
      [''device_code'' \<mapsto> PStr ''dc'', ''interval'' \<mapsto> PInt 2] (demo_start 1000)
     = Some (Inr [''error'' \<mapsto> PStr ''authorization_pending''],
             [''device_code'' \<mapsto> PStr ''dc'', ''interval'' \<mapsto> PInt 2,
              ''latest_attempt_at'' \<mapsto> PFloat 1000],
             \<lparr>env = \<lparr>clock = 1001, posted = 1\<rparr>,
              log = [EvCheck, EvSleep, EvCheck,
                     EvResult [''error'' \<mapsto> PStr ''authorization_pending''],
                     EvPost ''https://idp/token'', EvAttempt]\<rparr>)
   \<and> poll_loop demo_client (demo_host (\<lambda>k. demo_resp 200 ''token''))
      (\<lambda>flow w. Inr (1001 \<le> clock w)) demo_sleep Map.empty
      [''device_code'' \<mapsto> PStr ''dc'', ''interval'' \<mapsto> PInt 2] (demo_start 1000)
     = Some (Inr [''access_token'' \<mapsto> PStr ''abc''],
             [''device_code'' \<mapsto> PStr ''dc'', ''interval'' \<mapsto> PInt 2,
              ''latest_attempt_at'' \<mapsto> PFloat 1000],
             \<lparr>env = \<lparr>clock = 1000, posted = 1\<rparr>,
              log = [EvResult [''access_token'' \<mapsto> PStr ''abc''],
                     EvPost ''https://idp/token'', EvAttempt]\<rparr>)"
proof -
  let ?xc = "\<lambda>(flow::pydict) w. (Inr (1001 \<le> clock w) :: error + bool)"
  let ?flow = "[''device_code'' \<mapsto> PStr ''dc'', ''interval'' \<mapsto> PInt 2]"
  let ?flow1 = "[''device_code'' \<mapsto> PStr ''dc'', ''interval'' \<mapsto> PInt 2,
                 ''latest_attempt_at'' \<mapsto> PFloat 1000]"
  let ?pending = "[''error'' \<mapsto> PStr ''authorization_pending'']"
  let ?token = "[''access_token'' \<mapsto> PStr ''abc'']"
  let ?s1 = "\<lparr>env = \<lparr>clock = 1000, posted = 1\<rparr>,
              log = [EvResult ?pending, EvPost ''https://idp/token'', EvAttempt]\<rparr>"
  let ?t1 = "\<lparr>env = \<lparr>clock = 1000, posted = 1\<rparr>,
              log = [EvResult ?token, EvPost ''https://idp/token'', EvAttempt]\<rparr>"
  have att: "priv_obtain_token_by_device_flow demo_client (demo_host (\<lambda>k. demo_resp 400 ''pending''))
               Map.empty ?flow (demo_start 1000) = (Inr ?pending, ?flow1, ?s1)"
    by (simp add: demo_defs)
  have att2: "priv_obtain_token_by_device_flow demo_client (demo_host (\<lambda>k. demo_resp 200 ''token''))
               Map.empty ?flow (demo_start 1000) = (Inr ?token, ?flow1, ?t1)"
    by (simp add: demo_defs)
  have retr: "retriable ?pending" by (simp add: demo_defs)
  have fin: "\<not> retriable ?token" by (simp add: demo_defs)
  have rng: "py_range (dict_get ?flow1 ''interval'' (PInt 5)) = Inr 2"
    by (simp add: dict_get_def)
  have klt: "(1::nat) < 2" by simp
  have before: "\<forall>i<1. ?xc ?flow1 (slept demo_sleep i (env ?s1)) = Inr False"
    by (simp add: slept_def)
  have at: "?xc ?flow1 (slept demo_sleep 1 (env ?s1)) = Inr True"
    by (simp add: slept_def demo_sleep_def)
  note it = poll_iteration [OF att, of ?xc demo_sleep]
  note it2 = poll_iteration [OF att2, of ?xc demo_sleep]
  from it [THEN conjunct2, THEN conjunct2, THEN conjunct1, rule_format, OF retr rng klt _ at] before
  have one: "poll_loop demo_client (demo_host (\<lambda>k. demo_resp 400 ''pending'')) ?xc demo_sleep
               Map.empty ?flow (demo_start 1000)
             = Some (Inr ?pending, ?flow1,
                     ?s1\<lparr>env := slept demo_sleep 1 (env ?s1), log := EvCheck # waited 1 @ log ?s1\<rparr>)"
    by simp
  from it2 [THEN conjunct2, THEN conjunct1, rule_format, OF fin]
  have two: "poll_loop demo_client (demo_host (\<lambda>k. demo_resp 200 ''token'')) ?xc demo_sleep
               Map.empty ?flow (demo_start 1000) = Some (Inr ?token, ?flow1, ?t1)" .
  from one two show ?thesis
    by (simp add: slept_def waited_def demo_sleep_def)
qed



text \<open>
  C3 (as the code behaves). The exit condition is always true, a sleeper is supplied, the
  descriptor's interval is 0, and the provider answers \<^verbatim>\<open>authorization_pending\<close> and then
  a token. The wait phase after the first attempt has no round, so the exit condition
  is never checked: the call makes a second poll attempt and returns the token. The log
  holds two attempts and two posts, no check and no sleep.
\<close>

theorem always_true_exit_polls_twice:
  "obtain_token_by_device_flow demo_client
      (demo_host (\<lambda>k. if k = 0 then demo_resp 400 ''pending'' else demo_resp 200 ''token''))
      (\<lambda>flow w. Inr True) (Some demo_sleep) Map.empty
      [''device_code'' \<mapsto> PStr ''dc'', ''interval'' \<mapsto> PInt 0] (demo_start 1000)
   = Some (Inr [''access_token'' \<mapsto> PStr ''abc''],
           [''device_code'' \<mapsto> PStr ''dc'', ''interval'' \<mapsto> PInt 0,
            ''latest_attempt_at'' \<mapsto> PFloat 1000],
           \<lparr>env = \<lparr>clock = 1000, posted = 2\<rparr>,
            log = [EvResult [''access_token'' \<mapsto> PStr ''abc''],
                   EvPost ''https://idp/token'', EvAttempt,
                   EvResult [''error'' \<mapsto> PStr ''authorization_pending''],
                   EvPost ''https://idp/token'', EvAttempt]\<rparr>)"
proof -
  let ?H = "demo_host (\<lambda>k. if k = 0 then demo_resp 400 ''pending'' else demo_resp 200 ''token'')"
  let ?xc = "\<lambda>(flow::pydict) (w::demo_world). (Inr True :: error + bool)"
  let ?flow = "[''device_code'' \<mapsto> PStr ''dc'', ''interval'' \<mapsto> PInt 0]"
  let ?flow1 = "[''device_code'' \<mapsto> PStr ''dc'', ''interval'' \<mapsto> PInt 0,
                 ''latest_attempt_at'' \<mapsto> PFloat 1000]"
  let ?pending = "[''error'' \<mapsto> PStr ''authorization_pending'']"
  let ?token = "[''access_token'' \<mapsto> PStr ''abc'']"
  let ?s1 = "\<lparr>env = \<lparr>clock = 1000, posted = 1\<rparr>,
              log = [EvResult ?pending, EvPost ''https://idp/token'', EvAttempt]\<rparr>"
  let ?s2 = "\<lparr>env = \<lparr>clock = 1000, posted = 2\<rparr>,
              log = [EvResult ?token, EvPost ''https://idp/token'', EvAttempt,
                     EvResult ?pending, EvPost ''https://idp/token'', EvAttempt]\<rparr>"
  have att1: "priv_obtain_token_by_device_flow demo_client ?H Map.empty ?flow (demo_start 1000)
                = (Inr ?pending, ?flow1, ?s1)"
    by (simp add: demo_defs)
  have att2: "priv_obtain_token_by_device_flow demo_client ?H Map.empty ?flow1 ?s1
                = (Inr ?token, ?flow1, ?s2)"
    by (simp add: demo_defs)
  have retr: "retriable ?pending" by (simp add: demo_defs)
  have fin: "\<not> retriable ?token" by (simp add: demo_defs)
  have rng: "py_range (dict_get ?flow1 ''interval'' (PInt 5)) = Inr 0"
    by (simp add: dict_get_def)
  have "poll_loop demo_client ?H ?xc demo_sleep Map.empty ?flow (demo_start 1000)
          = poll_loop demo_client ?H ?xc demo_sleep Map.empty ?flow1 ?s1"
    using poll_step_again [OF att1 retr rng, of ?xc demo_sleep]
    by (simp add: slept_def waited_def)
  also have "\<dots> = Some (Inr ?token, ?flow1, ?s2)"
    by (rule poll_step_terminal [OF att2 fin])
  finally show ?thesis
    by (simp add: obtain_token_by_device_flow_def)
qed

text \<open>
  C8. A poll attempt, however it ends, leaves every key of the descriptor other than
  \<^verbatim>\<open>interval\<close> and \<^verbatim>\<open>latest_attempt_at\<close> as it was, \<^verbatim>\<open>expires_at\<close> among them; and so
  does every call of \<^verbatim>\<open>obtain_token_by_device_flow\<close> that ends, over all its iterations.
  The value of \<^verbatim>\<open>expires_at\<close> is the one \<^verbatim>\<open>initiate_device_flow\<close> wrote when it created
  the descriptor.
\<close>

theorem descriptor_frame:
  "(priv_obtain_token_by_device_flow c H data flow s = (out, flow1, s1) \<longrightarrow>
      flow1 ''expires_at'' = flow ''expires_at''
      \<and> (\<forall>k. k \<noteq> ''interval'' \<and> k \<noteq> ''latest_attempt_at'' \<longrightarrow> flow1 k = flow k))
   \<and> (obtain_token_by_device_flow c H xc sleeper data flow s = Some (out', flow', s') \<longrightarrow>
      flow' ''expires_at'' = flow ''expires_at''
      \<and> (\<forall>k. k \<noteq> ''interval'' \<and> k \<noteq> ''latest_attempt_at'' \<longrightarrow> flow' k = flow k))
   \<and> (initiate_device_flow c H scope data0 s0 = (Inr flow, s) \<longrightarrow>
      (\<exists>x. flow ''expires_in'' = Some (PInt x)
           \<and> flow ''expires_at'' = Some (PFloat (time_time H (env s) + real_of_int x))))"
proof (intro conjI impI)
  assume att: "priv_obtain_token_by_device_flow c H data flow s = (out, flow1, s1)"
  show "\<forall>k. k \<noteq> ''interval'' \<and> k \<noteq> ''latest_attempt_at'' \<longrightarrow> flow1 k = flow k"
    using attempt_frame [OF att] by blast
  then show "flow1 ''expires_at'' = flow ''expires_at''" by simp
next
  assume run: "obtain_token_by_device_flow c H xc sleeper data flow s = Some (out', flow', s')"
  show all: "\<forall>k. k \<noteq> ''interval'' \<and> k \<noteq> ''latest_attempt_at'' \<longrightarrow> flow' k = flow k"
  proof (cases sleeper)
    case None
    with run show ?thesis by (simp add: obtain_token_by_device_flow_def)
  next
    case (Some sl)
    with run have "poll_loop c H xc sl data flow s = Some (out', flow', s')"
      by (simp add: obtain_token_by_device_flow_def)
    from poll_loop_frame [OF this] show ?thesis by simp
  qed
  then show "flow' ''expires_at'' = flow ''expires_at''" by simp
next
  assume "initiate_device_flow c H scope data0 s0 = (Inr flow, s)"
  then show "\<exists>x. flow ''expires_in'' = Some (PInt x)
           \<and> flow ''expires_at'' = Some (PFloat (time_time H (env s) + real_of_int x))"
    by (auto simp: initiate_device_flow_def Let_def record_event_def
             split: if_splits prod.splits sum.splits option.splits json_doc.splits)
qed

text \<open>The concrete sleeper moves the clock by one second a call.\<close>

lemma slept_demo_sleep: "slept demo_sleep k w = w\<lparr>clock := clock w + real k\<rparr>"
  by (induction k arbitrary: w) (simp_all add: slept_def demo_sleep_def funpow_swap1)

text \<open>
  A whole session in the concrete world, used by the witnesses below: the provider
  grants a descriptor with interval 7 and \<^verbatim>\<open>expires_in\<close> 900 at time 1000, answers the
  first poll with \<^verbatim>\<open>slow_down\<close> and the second with a token. The loop waits out twelve
  rounds in between.
\<close>

lemma demo_session_initiate:
  "initiate_device_flow demo_client
      (demo_host (\<lambda>k. if k = 0 then demo_resp 200 ''numbers''
                        else if k = 1 then demo_resp 400 ''slow'' else demo_resp 200 ''token''))
      [] Map.empty (demo_start 1000)
   = (Inr [''device_code'' \<mapsto> PStr ''dc'', ''interval'' \<mapsto> PInt 7,
           ''expires_in'' \<mapsto> PInt 900, ''expires_at'' \<mapsto> PFloat 1900],
      \<lparr>env = \<lparr>clock = 1000, posted = 1\<rparr>, log = [EvPost ''https://idp/device'']\<rparr>)"
  by (simp add: initiate_device_flow_def config_missing_def demo_json_def demo_defs)

lemma demo_session_attempt:
  "priv_obtain_token_by_device_flow demo_client
      (demo_host (\<lambda>k. if k = 0 then demo_resp 200 ''numbers''
                        else if k = 1 then demo_resp 400 ''slow'' else demo_resp 200 ''token''))
      Map.empty
      [''device_code'' \<mapsto> PStr ''dc'', ''interval'' \<mapsto> PInt 7,
       ''expires_in'' \<mapsto> PInt 900, ''expires_at'' \<mapsto> PFloat 1900]
      \<lparr>env = \<lparr>clock = 1000, posted = 1\<rparr>, log = [EvPost ''https://idp/device'']\<rparr>
   = (Inr [''error'' \<mapsto> PStr ''slow_down''],
      [''device_code'' \<mapsto> PStr ''dc'', ''interval'' \<mapsto> PInt 12,
       ''expires_in'' \<mapsto> PInt 900, ''expires_at'' \<mapsto> PFloat 1900,
       ''latest_attempt_at'' \<mapsto> PFloat 1000],
      \<lparr>env = \<lparr>clock = 1000, posted = 2\<rparr>,
       log = [EvResult [''error'' \<mapsto> PStr ''slow_down''], EvPost ''https://idp/token'',
              EvAttempt, EvPost ''https://idp/device'']\<rparr>)"
proof -
  let ?flow = "[''device_code'' \<mapsto> PStr ''dc'', ''interval'' \<mapsto> PInt 7,
                ''expires_in'' \<mapsto> PInt 900, ''expires_at'' \<mapsto> PFloat 1900]"
  have bumped: "?flow(''interval'' \<mapsto> PInt 12, ''latest_attempt_at'' \<mapsto> PFloat 1000)
      = [''device_code'' \<mapsto> PStr ''dc'', ''interval'' \<mapsto> PInt 12,
         ''expires_in'' \<mapsto> PInt 900, ''expires_at'' \<mapsto> PFloat 1900,
         ''latest_attempt_at'' \<mapsto> PFloat 1000]"
    by (rule ext) simp
  have "priv_obtain_token_by_device_flow demo_client
      (demo_host (\<lambda>k. if k = 0 then demo_resp 200 ''numbers''
                        else if k = 1 then demo_resp 400 ''slow'' else demo_resp 200 ''token''))
      Map.empty ?flow
      \<lparr>env = \<lparr>clock = 1000, posted = 1\<rparr>, log = [EvPost ''https://idp/device'']\<rparr>
   = (Inr [''error'' \<mapsto> PStr ''slow_down''],
      ?flow(''interval'' \<mapsto> PInt 12, ''latest_attempt_at'' \<mapsto> PFloat 1000),
      \<lparr>env = \<lparr>clock = 1000, posted = 2\<rparr>,
       log = [EvResult [''error'' \<mapsto> PStr ''slow_down''], EvPost ''https://idp/token'',
              EvAttempt, EvPost ''https://idp/device'']\<rparr>)"
    by (simp add: demo_defs)
  then show ?thesis unfolding bumped .
qed

lemma demo_session_poll:
  "obtain_token_by_device_flow demo_client
      (demo_host (\<lambda>k. if k = 0 then demo_resp 200 ''numbers''
                        else if k = 1 then demo_resp 400 ''slow'' else demo_resp 200 ''token''))
      (default_exit_condition
         (demo_host (\<lambda>k. if k = 0 then demo_resp 200 ''numbers''
                           else if k = 1 then demo_resp 400 ''slow'' else demo_resp 200 ''token'')))
      (Some demo_sleep) Map.empty
      [''device_code'' \<mapsto> PStr ''dc'', ''interval'' \<mapsto> PInt 7,
       ''expires_in'' \<mapsto> PInt 900, ''expires_at'' \<mapsto> PFloat 1900]
      \<lparr>env = \<lparr>clock = 1000, posted = 1\<rparr>, log = [EvPost ''https://idp/device'']\<rparr>
   = Some (Inr [''access_token'' \<mapsto> PStr ''abc''],
           [''device_code'' \<mapsto> PStr ''dc'', ''interval'' \<mapsto> PInt 12,
            ''expires_in'' \<mapsto> PInt 900, ''expires_at'' \<mapsto> PFloat 1900,
            ''latest_attempt_at'' \<mapsto> PFloat 1012],
           \<lparr>env = \<lparr>clock = 1012, posted = 3\<rparr>,
            log = [EvResult [''access_token'' \<mapsto> PStr ''abc''],
                   EvPost ''https://idp/token'', EvAttempt]
                  @ waited 12
                  @ [EvResult [''error'' \<mapsto> PStr ''slow_down''],
                     EvPost ''https://idp/token'', EvAttempt,
                     EvPost ''https://idp/device'']\<rparr>)"
proof -
  let ?H = "demo_host (\<lambda>k. if k = 0 then demo_resp 200 ''numbers''
                        else if k = 1 then demo_resp 400 ''slow'' else demo_resp 200 ''token'')"
  let ?xc = "default_exit_condition ?H"
  let ?flow = "[''device_code'' \<mapsto> PStr ''dc'', ''interval'' \<mapsto> PInt 7,
                ''expires_in'' \<mapsto> PInt 900, ''expires_at'' \<mapsto> PFloat 1900]"
  let ?flow1 = "[''device_code'' \<mapsto> PStr ''dc'', ''interval'' \<mapsto> PInt 12,
                 ''expires_in'' \<mapsto> PInt 900, ''expires_at'' \<mapsto> PFloat 1900,
                 ''latest_attempt_at'' \<mapsto> PFloat 1000]"
  let ?flow2 = "[''device_code'' \<mapsto> PStr ''dc'', ''interval'' \<mapsto> PInt 12,
                 ''expires_in'' \<mapsto> PInt 900, ''expires_at'' \<mapsto> PFloat 1900,
                 ''latest_attempt_at'' \<mapsto> PFloat 1012]"
  let ?slow = "[''error'' \<mapsto> PStr ''slow_down'']"
  let ?token = "[''access_token'' \<mapsto> PStr ''abc'']"
  let ?s = "\<lparr>env = \<lparr>clock = 1000, posted = 1\<rparr>, log = [EvPost ''https://idp/device'']\<rparr>"
  let ?s1 = "\<lparr>env = \<lparr>clock = 1000, posted = 2\<rparr>,
              log = [EvResult ?slow, EvPost ''https://idp/token'', EvAttempt,
                     EvPost ''https://idp/device'']\<rparr>"
  let ?s2 = "\<lparr>env = \<lparr>clock = 1012, posted = 2\<rparr>,
              log = waited 12 @ [EvResult ?slow, EvPost ''https://idp/token'', EvAttempt,
                                 EvPost ''https://idp/device'']\<rparr>"
  let ?s3 = "\<lparr>env = \<lparr>clock = 1012, posted = 3\<rparr>,
              log = [EvResult ?token, EvPost ''https://idp/token'', EvAttempt]
                    @ waited 12
                    @ [EvResult ?slow, EvPost ''https://idp/token'', EvAttempt,
                       EvPost ''https://idp/device'']\<rparr>"
  note att1 = demo_session_attempt
  have att2: "priv_obtain_token_by_device_flow demo_client ?H Map.empty ?flow1 ?s2
                = (Inr ?token, ?flow2, ?s3)"
    by (simp add: demo_defs)
  have retr: "retriable ?slow" by (simp add: demo_defs)
  have fin: "\<not> retriable ?token" by (simp add: demo_defs)
  have rng: "py_range (dict_get ?flow1 ''interval'' (PInt 5)) = Inr 12"
    by (simp add: dict_get_def)
  have quiet: "\<And>i. i < 12 \<Longrightarrow> ?xc ?flow1 (slept demo_sleep i (env ?s1)) = Inr False"
    by (simp add: default_exit_condition_def dict_get_def slept_demo_sleep demo_host_def)
  have "poll_loop demo_client ?H ?xc demo_sleep Map.empty ?flow ?s
          = poll_loop demo_client ?H ?xc demo_sleep Map.empty ?flow1 ?s2"
    using poll_step_again [where xc = ?xc and sl = demo_sleep, OF att1 retr rng quiet]
    by (simp add: slept_demo_sleep)
  also have "\<dots> = Some (Inr ?token, ?flow2, ?s3)"
    by (rule poll_step_terminal [OF att2 fin])
  finally show ?thesis
    by (simp add: obtain_token_by_device_flow_def)
qed

lemma waited_no_result: "filter is_slow_result (waited k) = []"
  by (induction k) (simp_all add: waited_def)

text \<open>
  C2. A poll attempt that raises leaves the descriptor as it was. A poll attempt that
  returns a result found a numeric interval and leaves it 5 higher when the result's
  error is \<^verbatim>\<open>slow_down\<close>, and leaves the field untouched otherwise. Hence over every call
  of \<^verbatim>\<open>obtain_token_by_device_flow\<close> that ends, in which the transport's answers were
  \<^verbatim>\<open>slow_down\<close> \<open>N\<close> times, the interval ends at its initial value plus \<open>5 N\<close>, and it
  never went down.
\<close>

theorem interval_backoff:
  "(priv_obtain_token_by_device_flow c H data flow s = (Inl e, flow1, s1) \<longrightarrow> flow1 = flow)
   \<and> (priv_obtain_token_by_device_flow c H data flow s = (Inr result, flow1, s1) \<longrightarrow>
        (\<exists>i. interval_of flow = Some i
             \<and> interval_of flow1 = Some (if is_slow_down result then i + 5 else i))
        \<and> (\<not> is_slow_down result \<longrightarrow> flow1 ''interval'' = flow ''interval''))
   \<and> (obtain_token_by_device_flow c H xc sleeper data flow s = Some (out', flow', s') \<longrightarrow>
        interval_of flow = Some i0 \<longrightarrow> slow_downs s' = slow_downs s + N \<longrightarrow>
        interval_of flow' = Some (i0 + 5 * real N) \<and> i0 \<le> i0 + 5 * real N)"
proof (intro conjI impI)
  assume "priv_obtain_token_by_device_flow c H data flow s = (Inl e, flow1, s1)"
  from attempt_interval_field [OF this] show "flow1 = flow" by simp
next
  assume att: "priv_obtain_token_by_device_flow c H data flow s = (Inr result, flow1, s1)"
  from attempt_interval_field [OF att]
  have field: "if is_slow_down result
      then (\<exists>v. py_add_int (dict_get flow ''interval'' (PInt 5)) 5 = Inr v \<and> flow1 ''interval'' = Some v)
      else flow1 ''interval'' = flow ''interval''"
    by simp
  from att obtain i where i: "interval_of flow = Some i"
    by (auto simp: priv_obtain_token_by_device_flow_def Let_def attempted_too_soon_def
                   interval_of_def split: option.splits sum.splits)
  show "\<exists>i. interval_of flow = Some i
          \<and> interval_of flow1 = Some (if is_slow_down result then i + 5 else i)"
  proof (cases "is_slow_down result")
    case True
    with field obtain v where v: "py_add_int (dict_get flow ''interval'' (PInt 5)) 5 = Inr v"
      and f1: "flow1 ''interval'' = Some v" by auto
    from py_add_int_num [of "dict_get flow ''interval'' (PInt 5)" i 5] i v
    have "num_of v = Some (i + 5)" by (auto simp: interval_of_def)
    with f1 True i show ?thesis by (simp add: interval_of_def dict_get_def)
  next
    case False
    with field i show ?thesis by (simp add: interval_of_def dict_get_def)
  qed
  assume "\<not> is_slow_down result"
  with field show "flow1 ''interval'' = flow ''interval''" by simp
next
  assume run: "obtain_token_by_device_flow c H xc sleeper data flow s = Some (out', flow', s')"
    and i0: "interval_of flow = Some i0" and N: "slow_downs s' = slow_downs s + N"
  show "interval_of flow' = Some (i0 + 5 * real N)"
  proof (cases sleeper)
    case None
    with run N i0 show ?thesis by (simp add: obtain_token_by_device_flow_def)
  next
    case (Some sl)
    with run have "poll_loop c H xc sl data flow s = Some (out', flow', s')"
      by (simp add: obtain_token_by_device_flow_def)
    from poll_loop_interval [OF this] N i0 show ?thesis by auto
  qed
  show "i0 \<le> i0 + 5 * real N" by simp
qed

theorem interval_backoff_witness:
  "map_option (\<lambda>y. interval_of (fst (snd y)))
     (obtain_token_by_device_flow demo_client
        (demo_host (\<lambda>k. if k = 0 then demo_resp 200 ''numbers''
                          else if k = 1 then demo_resp 400 ''slow'' else demo_resp 200 ''token''))
        (default_exit_condition
           (demo_host (\<lambda>k. if k = 0 then demo_resp 200 ''numbers''
                             else if k = 1 then demo_resp 400 ''slow'' else demo_resp 200 ''token'')))
        (Some demo_sleep) Map.empty
        [''device_code'' \<mapsto> PStr ''dc'', ''interval'' \<mapsto> PInt 7,
         ''expires_in'' \<mapsto> PInt 900, ''expires_at'' \<mapsto> PFloat 1900]
        \<lparr>env = \<lparr>clock = 1000, posted = 1\<rparr>, log = [EvPost ''https://idp/device'']\<rparr>)
   = Some (Some 12)"
proof -
  let ?flow = "[''device_code'' \<mapsto> PStr ''dc'', ''interval'' \<mapsto> PInt 7,
                ''expires_in'' \<mapsto> PInt 900, ''expires_at'' \<mapsto> PFloat 1900]"
  let ?s = "\<lparr>env = \<lparr>clock = (1000::real), posted = 1\<rparr>, log = [EvPost ''https://idp/device'']\<rparr>"
  let ?s3 = "\<lparr>env = \<lparr>clock = (1012::real), posted = 3\<rparr>,
              log = [EvResult [''access_token'' \<mapsto> PStr ''abc''],
                     EvPost ''https://idp/token'', EvAttempt]
                    @ waited 12
                    @ [EvResult [''error'' \<mapsto> PStr ''slow_down''],
                       EvPost ''https://idp/token'', EvAttempt,
                       EvPost ''https://idp/device'']\<rparr>"
  have i0: "interval_of ?flow = Some 7"
    by (simp add: interval_of_def dict_get_def)
  have N: "slow_downs ?s3 = slow_downs ?s + 1"
    by (simp add: slow_downs_def waited_no_result is_slow_down_def)
  from interval_backoff [THEN conjunct2, THEN conjunct2, rule_format, OF demo_session_poll i0 N]
  have "interval_of [''device_code'' \<mapsto> PStr ''dc'', ''interval'' \<mapsto> PInt 12,
            ''expires_in'' \<mapsto> PInt 900, ''expires_at'' \<mapsto> PFloat 1900,
            ''latest_attempt_at'' \<mapsto> PFloat 1012] = Some 12"
    by simp
  with demo_session_poll show ?thesis by simp
qed

theorem descriptor_frame_witness:
  "flow_field ''expires_at''
     (fst (initiate_device_flow demo_client
        (demo_host (\<lambda>k. if k = 0 then demo_resp 200 ''numbers''
                          else if k = 1 then demo_resp 400 ''slow'' else demo_resp 200 ''token''))
        [] Map.empty (demo_start 1000))) = Some (PFloat 1900)
   \<and> map_option (\<lambda>y. fst (snd y) ''expires_at'')
     (obtain_token_by_device_flow demo_client
        (demo_host (\<lambda>k. if k = 0 then demo_resp 200 ''numbers''
                          else if k = 1 then demo_resp 400 ''slow'' else demo_resp 200 ''token''))
        (default_exit_condition
           (demo_host (\<lambda>k. if k = 0 then demo_resp 200 ''numbers''
                             else if k = 1 then demo_resp 400 ''slow'' else demo_resp 200 ''token'')))
        (Some demo_sleep) Map.empty
        [''device_code'' \<mapsto> PStr ''dc'', ''interval'' \<mapsto> PInt 7,
         ''expires_in'' \<mapsto> PInt 900, ''expires_at'' \<mapsto> PFloat 1900]
        \<lparr>env = \<lparr>clock = 1000, posted = 1\<rparr>, log = [EvPost ''https://idp/device'']\<rparr>)
   = Some (Some (PFloat 1900))"
proof -
  let ?flow = "[''device_code'' \<mapsto> PStr ''dc'', ''interval'' \<mapsto> PInt 7,
                ''expires_in'' \<mapsto> PInt 900, ''expires_at'' \<mapsto> PFloat 1900]"
  note fr = descriptor_frame [THEN conjunct2, THEN conjunct1, rule_format, OF demo_session_poll]
  note at = descriptor_frame [THEN conjunct1, rule_format, OF demo_session_attempt]
  note init = descriptor_frame [THEN conjunct2, THEN conjunct2, rule_format, OF demo_session_initiate]
  from fr have "[''device_code'' \<mapsto> PStr ''dc'', ''interval'' \<mapsto> PInt 12,
            ''expires_in'' \<mapsto> PInt 900, ''expires_at'' \<mapsto> PFloat 1900,
            ''latest_attempt_at'' \<mapsto> PFloat 1012] ''expires_at'' = ?flow ''expires_at''"
    by blast
  with at init demo_session_poll demo_session_initiate show ?thesis
    by (simp add: flow_field_def)
qed

text \<open>
  Where the always-true exit condition does stop the loop after one attempt: whenever
  the wait phase has at least one round. A terminal result is returned as it is; a
  retriable one after the first check, before any sleep.
\<close>

lemma always_true_exit_single_attempt:
  assumes "priv_obtain_token_by_device_flow c H data flow s = (Inr result, flow1, s1)"
    and "retriable result \<Longrightarrow> py_range (dict_get flow1 ''interval'' (PInt 5)) = Inr (Suc n)"
  shows "poll_loop c H (\<lambda>flow w. Inr True) sl data flow s
           = Some (Inr result, flow1, if retriable result then record_event EvCheck s1 else s1)"
proof (cases "retriable result")
  case False
  with poll_step_terminal [OF assms(1)] show ?thesis by simp
next
  case True
  from poll_step_exit [where xc = "\<lambda>flow w. Inr True" and sl = sl and k = 0,
                       OF assms(1) True assms(2) [OF True]]
  show ?thesis using True by (simp add: slept_def waited_def record_event_def)
qed

text \<open>
  With an interval of 0 and a provider that keeps answering \<^verbatim>\<open>authorization_pending\<close>,
  the loop never returns, whatever the exit condition and the sleeper are: it polls
  without a pause and without ever looking at the exit condition.
\<close>

lemma zero_interval_busy_loop:
  assumes "poll_loop demo_client (demo_host (\<lambda>k. demo_resp 400 ''pending'')) xc sl Map.empty flow s
             = Some y"
    and "flow ''device_code'' = Some (PStr ''dc'')"
    and "flow ''interval'' = Some (PInt 0)"
    and "flow ''latest_attempt_at'' = None \<and> 0 \<le> clock (env s)
         \<or> flow ''latest_attempt_at'' = Some (PFloat (clock (env s)))"
  shows False
  using assms
proof (induction rule: poll_loop_induct)
  case (attempt_raises flow s e flow1 s1)
  then show ?case by (auto simp: demo_defs)
next
  case (terminal flow s result flow1 s1)
  then show ?case by (auto simp: demo_defs)
next
  case (range_raises flow s result flow1 s1 e)
  then show ?case by (auto simp: demo_defs)
next
  case (check_raises flow s result flow1 s1 n e s2)
  then show ?case by (auto simp: demo_defs)
next
  case (exited flow s result flow1 s1 n s2)
  then show ?case by (auto simp: demo_defs)
next
  case (again flow s result flow1 s1 n s2 y)
  from again(1,6,7,8) have f1: "flow1 = flow(''latest_attempt_at'' \<mapsto> PFloat (clock (env s)))"
    and c1: "clock (env s1) = clock (env s)"
    by (auto simp: demo_defs)
  from again(3,4) f1 again(7) have "s2 = s1" by (auto simp: dict_get_def)
  with again(5) f1 c1 again(6,7) show ?case by simp
qed

lemma zero_interval_never_returns:
  "obtain_token_by_device_flow demo_client (demo_host (\<lambda>k. demo_resp 400 ''pending''))
      xc (Some sl) Map.empty
      [''device_code'' \<mapsto> PStr ''dc'', ''interval'' \<mapsto> PInt 0] (demo_start 1000) = None"
proof (cases "poll_loop demo_client (demo_host (\<lambda>k. demo_resp 400 ''pending'')) xc sl Map.empty
      [''device_code'' \<mapsto> PStr ''dc'', ''interval'' \<mapsto> PInt 0] (demo_start 1000)")
  case None
  then show ?thesis by (simp add: obtain_token_by_device_flow_def)
next
  case (Some y)
  from zero_interval_busy_loop [OF Some] show ?thesis by (simp add: demo_start_def)
qed

end
